theory Spec2Isabelle
  imports Complex_Main "HOL-Library.AList"
begin

section \<open>Exceptions\<close>

text \<open>
  Every function that can raise returns a sum: \<open>Inl\<close> the exception, \<open>Inr\<close> the value.
  \<open>NonFinite\<close> is not a Python exception: it marks a float division whose denominator is
  zero, where the tensor would hold an infinity or a NaN.
\<close>

datatype error = KeyError | IndexError | TypeError | RuntimeError | NonFinite

definition and_then :: "error + 'a \<Rightarrow> ('a \<Rightarrow> error + 'b) \<Rightarrow> error + 'b" where
  "and_then r f = (case r of Inl e \<Rightarrow> Inl e | Inr x \<Rightarrow> f x)"

text \<open>A list comprehension or a loop over fallible items stops at the first exception.\<close>

fun collect :: "(error + 'a) list \<Rightarrow> error + 'a list" where
  "collect [] = Inr []"
| "collect (r # rs) =
     (case r of Inl e \<Rightarrow> Inl e
      | Inr x \<Rightarrow> (case collect rs of Inl e \<Rightarrow> Inl e | Inr xs \<Rightarrow> Inr (x # xs)))"

text \<open>Python list indexing \<open>xs[i]\<close>: a negative index counts from the end.\<close>

definition py_nth :: "'a list \<Rightarrow> int \<Rightarrow> error + 'a" where
  "py_nth xs i =
     (if 0 \<le> i \<and> i < int (length xs) then Inr (xs ! nat i)
      else if i < 0 \<and> - int (length xs) \<le> i then Inr (xs ! nat (int (length xs) + i))
      else Inl IndexError)"

text \<open>Python slice \<open>xs[:k]\<close>: a negative bound counts from the end.\<close>

definition slice_to :: "'a list \<Rightarrow> int \<Rightarrow> 'a list" where
  "slice_to xs k = (if 0 \<le> k then take (nat k) xs else take (nat (int (length xs) + k)) xs)"

section \<open>Masked softmax\<close>

text \<open>
  Tensors of 32-bit floats are modelled by lists of real numbers: a tensor of shape
  (batch, length) is a list of rows. Rounding, overflow to infinity and NaN are outside the
  model.

  \<^verbatim>\<open>
  def softmax_masked(inputs, mask, dim=1, epsilon=0.000001):
      inputs_exp = torch.exp(inputs)
      inputs_exp = inputs_exp * mask.float()
      inputs_exp_sum = inputs_exp.sum(dim=dim)
      inputs_attention = inputs_exp / (inputs_exp_sum.unsqueeze(dim) + epsilon)
      return inputs_attention
  \<close>
  The function is only called with \<open>dim = 1\<close> and with a mask of the shape of the inputs;
  the model fixes \<open>dim = 1\<close>, and for two different shapes (where the library raises
  unless one broadcasts to the other) it gives \<open>RuntimeError\<close>. A row whose denominator
  is zero gives \<open>NonFinite\<close>.
\<close>

type_synonym vec = "real list"

definition default_epsilon :: real where
  "default_epsilon = 1 / 1000000"

definition softmax_masked :: "real list list \<Rightarrow> int list list \<Rightarrow> real \<Rightarrow> error + real list list" where
  "softmax_masked inputs msk epsilon =
     (if map length inputs \<noteq> map length msk then Inl RuntimeError
      else
        let inputs_exp = map (map exp) inputs;
            inputs_exp = map2 (map2 (\<lambda>x m. x * real_of_int m)) inputs_exp msk;
            inputs_exp_sum = map sum_list inputs_exp
        in if 0 \<in> set (map (\<lambda>s. s + epsilon) inputs_exp_sum) then Inl NonFinite
           else Inr (map2 (\<lambda>row s. map (\<lambda>x. x / (s + epsilon)) row) inputs_exp inputs_exp_sum))"

section \<open>The vocabulary\<close>

text \<open>
  A Python \<open>dict\<close> keeps its keys in insertion order; it is an association list with
  distinct keys, and \<open>d[k] = v\<close> is \<open>AList.update k v d\<close> (in place for a key that is
  present, at the end for a new one). \<open>token_counts\<close> is a \<open>Counter\<close>: a \<open>dict\<close> whose
  lookup gives 0 for a missing key.
\<close>

definition END_TOKEN :: string where "END_TOKEN = ''<end>''"
definition START_TOKEN :: string where "START_TOKEN = ''<start>''"
definition PAD_TOKEN :: string where "PAD_TOKEN = ''<pad>''"
definition UNK_TOKEN :: string where "UNK_TOKEN = ''<unk>''"

record Vocab =
  special_tokens :: "string list option"
  token2id :: "(string \<times> int) list"
  id2token :: "(int \<times> string) list"
  token_counts :: "(string \<times> int) list"

definition counter_get :: "(string \<times> int) list \<Rightarrow> string \<Rightarrow> int" where
  "counter_get c token = (case map_of c token of None \<Rightarrow> 0 | Some n \<Rightarrow> n)"

text \<open>\<^verbatim>\<open>self.id2token = {i: t for t, i in self.token2id.items()}\<close>\<close>

definition rebuild_id2token :: "Vocab \<Rightarrow> Vocab" where
  "rebuild_id2token self =
     self\<lparr>id2token := fold (\<lambda>(t, i) d. AList.update i t d) (token2id self) []\<rparr>"

text \<open>
  \<^verbatim>\<open>
  def add_document(self, document, rebuild=True):
      for token in document:
          self.token_counts[token] += 1
          if token not in self.token2id:
              self.token2id[token] = len(self.token2id)
      if rebuild:
          self._rebuild_id2token()
  \<close>
  \<open>add_token\<close> is the body of the loop.
\<close>

definition add_token :: "string \<Rightarrow> Vocab \<Rightarrow> Vocab" where
  "add_token token self =
     (let self = self\<lparr>token_counts :=
                   AList.update token (counter_get (token_counts self) token + 1) (token_counts self)\<rparr>
      in if map_of (token2id self) token = None
         then self\<lparr>token2id := AList.update token (int (length (token2id self))) (token2id self)\<rparr>
         else self)"

definition add_document :: "Vocab \<Rightarrow> string list \<Rightarrow> bool \<Rightarrow> Vocab" where
  "add_document self document rebuild =
     (let self = fold add_token document self
      in if rebuild then rebuild_id2token self else self)"

definition add_documents :: "Vocab \<Rightarrow> string list list \<Rightarrow> Vocab" where
  "add_documents self documents =
     rebuild_id2token (fold (\<lambda>doc v. add_document v doc False) documents self)"

text \<open>The constructor \<^verbatim>\<open>Vocab(special_tokens)\<close>.\<close>

definition Vocab_init :: "string list option \<Rightarrow> Vocab" where
  "Vocab_init special =
     (let self = \<lparr>special_tokens = special, token2id = [], id2token = [], token_counts = []\<rparr>
      in case special of None \<Rightarrow> self | Some document \<Rightarrow> add_document self document True)"

definition Vocab_contains :: "Vocab \<Rightarrow> string \<Rightarrow> bool" where
  "Vocab_contains self item = (map_of (token2id self) item \<noteq> None)"

definition Vocab_getitem :: "Vocab \<Rightarrow> string \<Rightarrow> error + int" where
  "Vocab_getitem self item =
     (case map_of (token2id self) item of None \<Rightarrow> Inl KeyError | Some i \<Rightarrow> Inr i)"

definition Vocab_len :: "Vocab \<Rightarrow> nat" where
  "Vocab_len self = length (token2id self)"

text \<open>
  \<^verbatim>\<open>
  def save(self, filename):
      with open(filename, 'w') as csv_file:
          writer = csv.DictWriter(csv_file, fieldnames=['token', 'counts', 'is_special'])
          writer.writeheader()
          for idx in range(len(self.token2id)):
              token = self.id2token[idx]
              is_special = 1 if token in self.special_tokens else 0
              writer.writerow({'token': token, 'counts': self.token_counts[token],
                               'is_special': is_special})
  \<close>
  The file is modelled by the list of its rows below the header, each row a triple
  (token, counts, is_special). The \<open>csv\<close> library, which writes the integers as decimal text
  and quotes the tokens, is taken to give back on reading the rows that were written.
  \<open>token in self.special_tokens\<close> raises \<open>TypeError\<close> when \<open>special_tokens\<close> is \<open>None\<close>.
\<close>

type_synonym csv_row = "string \<times> int \<times> int"

definition save_row :: "Vocab \<Rightarrow> int \<Rightarrow> error + csv_row" where
  "save_row self idx =
     (case map_of (id2token self) idx of
        None \<Rightarrow> Inl KeyError
      | Some token \<Rightarrow>
          (case special_tokens self of
             None \<Rightarrow> Inl TypeError
           | Some special \<Rightarrow>
               Inr (token, counter_get (token_counts self) token,
                    if token \<in> set special then 1 else 0)))"

definition save :: "Vocab \<Rightarrow> error + csv_row list" where
  "save self = collect (map (\<lambda>idx. save_row self (int idx)) [0..<length (token2id self)])"

text \<open>
  \<^verbatim>\<open>
  def load(filename):
      with open(filename, 'r') as csv_file:
          token2id = {}
          tokens_counts = {}
          special_tokens = []
          reader = csv.DictReader(csv_file)
          for i, row in enumerate(reader):
              token2id[row['token']] = i
              tokens_counts[row['token']] = int(row['counts'])
              if bool(int(row['is_special'])):
                  special_tokens.append(row['token'])
      vocab = Vocab()
      vocab.token2id = token2id
      vocab.token_counts = Counter(tokens_counts)
      vocab.special_tokens = special_tokens
      vocab._rebuild_id2token()
      return vocab
  \<close>
  \<open>load_row\<close> is the body of the loop, on the three local variables.
\<close>

definition load_row ::
  "nat \<times> csv_row \<Rightarrow> (string \<times> int) list \<times> (string \<times> int) list \<times> string list
     \<Rightarrow> (string \<times> int) list \<times> (string \<times> int) list \<times> string list" where
  "load_row = (\<lambda>(i, token, counts, is_special) (t2i, tokens_counts, special).
     (AList.update token (int i) t2i,
      AList.update token counts tokens_counts,
      if is_special \<noteq> 0 then special @ [token] else special))"

definition load :: "csv_row list \<Rightarrow> Vocab" where
  "load rows =
     (case fold load_row (enumerate 0 rows) ([], [], []) of
        (t2i, tokens_counts, special) \<Rightarrow>
          rebuild_id2token
            ((Vocab_init None)\<lparr>token2id := t2i, token_counts := tokens_counts,
                               special_tokens := Some special\<rparr>))"

section \<open>The dataset\<close>

text \<open>
  \<^verbatim>\<open>
  def _pad_sentnece(self, sent):
      sent = sent[:self.max_len - 1] + [Vocab.END_TOKEN,]
      nb_pad = self.max_len - len(sent)
      sent = sent + [Vocab.PAD_TOKEN,] * nb_pad
      return sent

  def _process_sent(self, sent):
      sent = self._pad_sentnece(sent)
      sent = [self.vocab[t] if t in self.vocab else self.vocab[Vocab.UNK_TOKEN] for t in sent]
      sent = np.array(sent, dtype=np.long)
      return sent

  def __getitem__(self, index):
      query = self.lines[index]
      response = self.lines[index+1]
      query = self._process_sent(query)
      response = self._process_sent(response)
      return query, response

  def __len__(self):
      return self.max_lines - 1
  \<close>
  The fields of the dataset carry the prefix \<open>ds_\<close>, since the models below have a
  \<open>max_len\<close> of their own. The integer array is modelled by the list of its entries.
\<close>

record SubtitlesDialogDataset =
  ds_lines :: "string list list"
  ds_vocab :: Vocab
  ds_max_len :: int
  ds_max_lines :: int

definition pad_sentnece :: "SubtitlesDialogDataset \<Rightarrow> string list \<Rightarrow> string list" where
  "pad_sentnece self sent =
     (let sent = slice_to sent (ds_max_len self - 1) @ [END_TOKEN];
          nb_pad = ds_max_len self - int (length sent);
          sent = sent @ replicate (nat nb_pad) PAD_TOKEN
      in sent)"

definition process_sent :: "SubtitlesDialogDataset \<Rightarrow> string list \<Rightarrow> error + int list" where
  "process_sent self sent =
     (let sent = pad_sentnece self sent
      in collect (map (\<lambda>t. if Vocab_contains (ds_vocab self) t
                            then Vocab_getitem (ds_vocab self) t
                            else Vocab_getitem (ds_vocab self) UNK_TOKEN) sent))"

definition dataset_getitem ::
  "SubtitlesDialogDataset \<Rightarrow> int \<Rightarrow> error + (int list \<times> int list)" where
  "dataset_getitem self index =
     and_then (py_nth (ds_lines self) index) (\<lambda>query.
     and_then (py_nth (ds_lines self) (index + 1)) (\<lambda>response.
     and_then (process_sent self query) (\<lambda>query.
     and_then (process_sent self response) (\<lambda>response.
     Inr (query, response)))))"

definition dataset_len :: "SubtitlesDialogDataset \<Rightarrow> int" where
  "dataset_len self = ds_max_lines self - 1"

section \<open>The sequence-to-sequence models\<close>

text \<open>
  A tensor of shape (batch, length, size) is a list of rows, each a list of vectors; an empty
  batch is the empty list, whatever its other dimensions. Token indices are integers.

  The layers built in \<open>__init__\<close> (\<open>torch.nn.Embedding\<close>, \<open>GRU\<close>, \<open>GRUCell\<close>, \<open>Linear\<close>) are
  library code and are parameters of the model: each is a function on the vectors of one
  batch row, which the library applies to every row of the batch (and \<open>Linear\<close> and
  \<open>Embedding\<close> to every position). The \<open>GRU\<close> encoder maps the embedded sequence of a row to
  the sequence of its outputs. What the layers do inside is outside the model, and so are
  the sizes of the vectors along the last dimension, which \<open>__init__\<close> fixes: the model
  checks the batch and length dimensions only.
\<close>

record Seq2SeqModel =
  teacher_forcing :: real
  max_len :: int
  start_index :: int
  end_index :: int
  pad_index :: int
  embedding :: "int \<Rightarrow> vec"
  encoder :: "vec list \<Rightarrow> vec list"
  decoder :: "vec \<Rightarrow> vec \<Rightarrow> vec"
  decoder_projection :: "vec \<Rightarrow> vec"

record Seq2SeqAttentionModel = Seq2SeqModel +
  attention_decoder :: "vec \<Rightarrow> vec"
  attention_encoder :: "vec \<Rightarrow> vec"
  attention_reduce :: "vec \<Rightarrow> real"
  decoder_hidden_combine :: "vec \<Rightarrow> vec"

subsection \<open>Tensor operations used by the decoders\<close>

text \<open>
  \<open>t[:, i]\<close> on a tensor of shape (batch, length): \<open>IndexError\<close> when the length is not
  above \<open>i\<close>.
\<close>

definition column :: "'a list list \<Rightarrow> nat \<Rightarrow> error + 'a list" where
  "column t i = (if list_ex (\<lambda>row. length row \<le> i) t then Inl IndexError
                 else Inr (map (\<lambda>row. row ! i) t))"

text \<open>
  \<open>argmax\<close> along a row: the index of the first maximal entry; the library raises on a row
  of size zero.
\<close>

fun argmax_from :: "real list \<Rightarrow> nat \<Rightarrow> real \<Rightarrow> nat \<Rightarrow> nat" where
  "argmax_from [] i best best_i = best_i"
| "argmax_from (x # xs) i best best_i =
     (if best < x then argmax_from xs (Suc i) x i else argmax_from xs (Suc i) best best_i)"

definition argmax :: "real list \<Rightarrow> error + int" where
  "argmax xs = (case xs of [] \<Rightarrow> Inl IndexError
                | x # rest \<Rightarrow> Inr (int (argmax_from rest 1 x 0)))"

text \<open>The sum of a non-empty list of vectors, entry by entry (\<open>torch.sum\<close> along dimension 1).\<close>

fun vsum :: "vec list \<Rightarrow> vec" where
  "vsum [] = []"
| "vsum [v] = v"
| "vsum (v # vs) = map2 (+) v (vsum vs)"



text \<open>
  The choice of the next decoder input, the same in both models:
  \<^verbatim>\<open>
  if np.random.rand() < self.teacher_forcing and targets is not None:
      decoder_inputs = targets[:, i]
  else:
      decoder_inputs = decoder_output_logit.argmax(dim=1).long()
  \<close>
  \<open>draw\<close> is the value of this iteration's \<open>np.random.rand()\<close>.
\<close>

definition use_targets :: "'a Seq2SeqModel_scheme \<Rightarrow> real \<Rightarrow> int list list option \<Rightarrow> bool" where
  "use_targets self draw targets = (draw < teacher_forcing self \<and> targets \<noteq> None)"

definition next_inputs ::
  "'a Seq2SeqModel_scheme \<Rightarrow> real \<Rightarrow> int list list option \<Rightarrow> nat \<Rightarrow> vec list \<Rightarrow> error + int list" where
  "next_inputs self draw targets i decoder_output_logit =
     (if use_targets self draw targets then column (the targets) i
      else collect (map argmax decoder_output_logit))"

subsection \<open>Seq2SeqModel.decode\<close>





subsection \<open>Seq2SeqAttentionModel\<close>

text \<open>
  \<^verbatim>\<open>
  def encode(self, inputs):
      batch_size = inputs.size(0)
      inputs_mask = (inputs != self.pad_index).long()
      inputs_lengths = torch.sum(inputs_mask, dim=1)
      inputs_emb = self.embedding(inputs)
      outputs, h = self.encoder(inputs_emb)
      return outputs, inputs_mask
  \<close>
\<close>

definition Seq2SeqAttentionModel_encode ::
  "Seq2SeqAttentionModel \<Rightarrow> int list list \<Rightarrow> vec list list \<times> int list list" where
  "Seq2SeqAttentionModel_encode self inputs =
     (let inputs_mask = map (map (\<lambda>t. if t \<noteq> pad_index self then 1 else 0)) inputs;
          inputs_lengths = map sum_list inputs_mask;
          inputs_emb = map (map (embedding self)) inputs;
          outputs = map (encoder self) inputs_emb
      in (outputs, inputs_mask))"


record iteration =
  att_normazlied :: "real list list"
  decoder_hidden_att :: "vec list"
  decoder_hidden_combined :: "vec list"
  decoder_hidden_new :: "vec list"
  decoder_output_logit :: "vec list"
  decoder_inputs_new :: "int list"

definition Seq2SeqAttentionModel_step ::
  "Seq2SeqAttentionModel \<Rightarrow> vec list list \<Rightarrow> int list list \<Rightarrow> int list list option \<Rightarrow> real \<Rightarrow> nat
     \<Rightarrow> vec list \<Rightarrow> int list \<Rightarrow> error + iteration" where
  "Seq2SeqAttentionModel_step self encoder_hiddens inputs_mask targets draw i
       decoder_hidden decoder_inputs =
     (let decoder_inputs_emb = map (embedding self) decoder_inputs;
          att_enc = map (map (attention_encoder self)) encoder_hiddens;
          att_dec = map (attention_decoder self) decoder_hidden
      in if length att_enc \<noteq> length att_dec then Inl RuntimeError
         else
           let att = map2 (\<lambda>row d. map (\<lambda>e. map tanh (map2 (+) e d)) row) att_enc att_dec;
               att_reduced = map (map (attention_reduce self)) att
           in and_then (softmax_masked att_reduced inputs_mask default_epsilon) (\<lambda>att_n.
              let att_hidden = map2 (\<lambda>row ws. vsum (map2 (\<lambda>h w. map (\<lambda>x. x * w) h) row ws))
                                    encoder_hiddens att_n;
                  combined = map2 (\<lambda>h c. decoder_hidden_combine self (h @ c))
                                  decoder_hidden att_hidden
              in if length decoder_inputs_emb \<noteq> length combined then Inl RuntimeError
                 else
                   let hidden = map2 (decoder self) decoder_inputs_emb combined;
                       logit = map (decoder_projection self) hidden
                   in and_then (next_inputs self draw targets i logit) (\<lambda>inputs_new.
                      Inr \<lparr>att_normazlied = att_n, decoder_hidden_att = att_hidden,
                           decoder_hidden_combined = combined, decoder_hidden_new = hidden,
                           decoder_output_logit = logit, decoder_inputs_new = inputs_new\<rparr>)))"




section \<open>Notions used in the statements\<close>

text \<open>The masked exponentials of one row, and their sum: the denominator without epsilon.\<close>

definition masked_exp :: "real list \<Rightarrow> int list \<Rightarrow> real list" where
  "masked_exp xs ms = map2 (\<lambda>x m. x * real_of_int m) (map exp xs) ms"

definition masked_sum :: "real list \<Rightarrow> int list \<Rightarrow> real" where
  "masked_sum xs ms = sum_list (masked_exp xs ms)"


text \<open>
  The id that \<open>_process_sent\<close> gives a token: its own when the vocabulary has it, the id of
  the unknown token otherwise.
\<close>

definition id_of :: "Vocab \<Rightarrow> string \<Rightarrow> int" where
  "id_of v t = (case map_of (token2id v) t of Some i \<Rightarrow> i
     | None \<Rightarrow> (case map_of (token2id v) UNK_TOKEN of Some u \<Rightarrow> u | None \<Rightarrow> 0))"


section \<open>Notions used in the statements about the vocabulary\<close>

text \<open>
  The invariant of a vocabulary: the keys of \<open>token2id\<close> are distinct (it is a \<open>dict\<close>), the
  ids are 0, ..., n - 1 for its n tokens, \<open>id2token\<close> is the inverse of \<open>token2id\<close>, and the
  counter has the tokens of \<open>token2id\<close> as its keys. \<open>Vocab_core\<close> is the invariant without
  \<open>id2token\<close>, which holds inside the loop of \<open>add_document\<close>.
\<close>

definition Vocab_inv :: "Vocab \<Rightarrow> bool" where
  "Vocab_inv v =
     (distinct (map fst (token2id v)) \<and>
      set (map snd (token2id v)) = int ` {0..<length (token2id v)} \<and>
      (\<forall>i t. (map_of (id2token v) i = Some t) = (map_of (token2id v) t = Some i)) \<and>
      fst ` set (token_counts v) = fst ` set (token2id v))"

definition Vocab_core :: "Vocab \<Rightarrow> bool" where
  "Vocab_core v =
     (distinct (map fst (token2id v)) \<and>
      set (map snd (token2id v)) = int ` {0..<length (token2id v)} \<and>
      fst ` set (token_counts v) = fst ` set (token2id v))"

text \<open>
  The special tokens are a list of tokens of the vocabulary in increasing order of their
  ids, hence without repeats.
\<close>

definition specials_in_id_order :: "Vocab \<Rightarrow> bool" where
  "specials_in_id_order v =
     (case special_tokens v of
        None \<Rightarrow> False
      | Some special \<Rightarrow>
          set special \<subseteq> fst ` set (token2id v) \<and>
          sorted_wrt (\<lambda>s t. id_of v s < id_of v t) special)"



section \<open>Concrete instances\<close>

text \<open>A small vocabulary and dataset, built by the constructor and \<open>add_document\<close>.\<close>

definition example_vocab :: Vocab where
  "example_vocab =
     add_document (Vocab_init (Some [PAD_TOKEN, START_TOKEN, END_TOKEN, UNK_TOKEN]))
       [''hello'', ''hello'', ''you''] True"

definition example_dataset :: SubtitlesDialogDataset where
  "example_dataset =
     \<lparr>ds_lines = [[''hello'', ''there'', ''you''], [''you''], [''hello'']],
      ds_vocab = example_vocab, ds_max_len = 3, ds_max_lines = 3\<rparr>"

text \<open>
  A small attention model: hidden vectors of size 1, three logits, and a constant attention
  score, so that every value it computes is a rational number.
\<close>

definition example_model :: Seq2SeqAttentionModel where
  "example_model =
     \<lparr>teacher_forcing = 1 / 2, max_len = 2, start_index = 1, end_index = 2, pad_index = 0,
      embedding = (\<lambda>t. [real_of_int t]),
      encoder = map (\<lambda>e. [sum_list e]),
      decoder = (\<lambda>e h. [sum_list e + sum_list h]),
      decoder_projection = (\<lambda>h. [0, sum_list h, 1]),
      attention_decoder = (\<lambda>h. h),
      attention_encoder = (\<lambda>h. h),
      attention_reduce = (\<lambda>a. 0),
      decoder_hidden_combine = (\<lambda>hc. [sum_list hc])\<rparr>"

text \<open>
  The local variables of its first iteration on the input row 3, pad; \<open>tokens\<close> is the
  decoder input chosen for the next iteration.
\<close>

definition example_iteration :: "int list \<Rightarrow> iteration" where
  "example_iteration tokens =
     \<lparr>att_normazlied = [[1000000 / 1000001, 0]],
      decoder_hidden_att = [[3000000 / 1000001]],
      decoder_hidden_combined = [[3000000 / 1000001]],
      decoder_hidden_new = [[4000001 / 1000001]],
      decoder_output_logit = [[0, 4000001 / 1000001, 1]],
      decoder_inputs_new = tokens\<rparr>"

section \<open>Properties of the masked softmax\<close>

lemma softmax_masked_Inr:
  assumes "softmax_masked inputs msk eps = Inr w"
  shows "map length inputs = map length msk"
    and "w = map2 (\<lambda>xs ms. map (\<lambda>x. x / (masked_sum xs ms + eps)) (masked_exp xs ms)) inputs msk"
    and "\<forall>b < length inputs. masked_sum (inputs ! b) (msk ! b) + eps \<noteq> 0"
proof -
  show sh: "map length inputs = map length msk"
    using assms unfolding softmax_masked_def by (simp split: if_splits)
  then have len: "length inputs = length msk" by (metis length_map)
  show "w = map2 (\<lambda>xs ms. map (\<lambda>x. x / (masked_sum xs ms + eps)) (masked_exp xs ms)) inputs msk"
    using assms sh len unfolding softmax_masked_def Let_def masked_exp_def masked_sum_def
    by (auto split: if_splits simp: list_eq_iff_nth_eq)
  show "\<forall>b < length inputs. masked_sum (inputs ! b) (msk ! b) + eps \<noteq> 0"
  proof (intro allI impI)
    fix b assume b: "b < length inputs"
    let ?ds = "map (\<lambda>s. s + eps) (map sum_list (map2 (map2 (\<lambda>x m. x * real_of_int m)) (map (map exp) inputs) msk))"
    have nz: "0 \<notin> set ?ds"
      using assms sh unfolding softmax_masked_def Let_def by (simp split: if_splits)
    have "?ds ! b = masked_sum (inputs ! b) (msk ! b) + eps"
      using b len by (simp add: masked_exp_def masked_sum_def)
    moreover have "b < length ?ds" using b len by simp
    ultimately show "masked_sum (inputs ! b) (msk ! b) + eps \<noteq> 0"
      using nz by (metis nth_mem)
  qed
qed


lemma softmax_masked_shape:
  assumes "softmax_masked inputs msk eps = Inr w"
  shows "map length w = map length inputs"
proof -
  have sh: "map length inputs = map length msk" using softmax_masked_Inr(1)[OF assms(1)] .
  then have len: "length inputs = length msk" by (metis length_map)
  have "\<forall>b<length inputs. length (inputs ! b) = length (msk ! b)"
    using sh len by (metis nth_map)
  then show ?thesis
    unfolding softmax_masked_Inr(2)[OF assms(1)]
    using len by (simp add: list_eq_iff_nth_eq masked_exp_def)
qed















section \<open>Properties of the dataset\<close>

lemma collect_map_Inr:
  assumes "\<forall>x \<in> set xs. f x = Inr (g x)"
  shows "collect (map f xs) = Inr (map g xs)"
  using assms by (induction xs) simp_all

lemma pad_sentnece_eq:
  assumes "1 \<le> ds_max_len self"
  shows "pad_sentnece self sent =
           take (nat (ds_max_len self - 1)) sent @ END_TOKEN #
           replicate (nat (ds_max_len self) - Suc (min (length sent) (nat (ds_max_len self - 1)))) PAD_TOKEN"
proof -
  have "nat (ds_max_len self - int (length (slice_to sent (ds_max_len self - 1) @ [END_TOKEN])))
        = nat (ds_max_len self) - Suc (min (length sent) (nat (ds_max_len self - 1)))"
    using assms by (simp add: slice_to_def)
  then show ?thesis using assms by (simp add: pad_sentnece_def slice_to_def Let_def)
qed

lemma length_pad_sentnece:
  assumes "1 \<le> ds_max_len self"
  shows "length (pad_sentnece self sent) = nat (ds_max_len self)"
  unfolding pad_sentnece_eq[OF assms] using assms by simp

lemma process_sent_eq:
  assumes "Vocab_contains (ds_vocab self) UNK_TOKEN"
  shows "process_sent self sent = Inr (map (id_of (ds_vocab self)) (pad_sentnece self sent))"
  unfolding process_sent_def Let_def
  apply (rule collect_map_Inr)
  using assms
  apply (auto simp: Vocab_contains_def Vocab_getitem_def id_of_def split: option.splits)
  done


lemma example_vocab_eq:
  "example_vocab =
     \<lparr>special_tokens = Some [''<pad>'', ''<start>'', ''<end>'', ''<unk>''],
      token2id = [(''<pad>'', 0), (''<start>'', 1), (''<end>'', 2), (''<unk>'', 3), (''hello'', 4), (''you'', 5)],
      id2token = [(0, ''<pad>''), (1, ''<start>''), (2, ''<end>''), (3, ''<unk>''), (4, ''hello''), (5, ''you'')],
      token_counts = [(''<pad>'', 1), (''<start>'', 1), (''<end>'', 1), (''<unk>'', 1), (''hello'', 2), (''you'', 1)]\<rparr>"
  by code_simp

lemma process_sent_example:
  "process_sent example_dataset [''hello'', ''there'', ''you''] = Inr [4, 3, 2]"
  "process_sent example_dataset [''you''] = Inr [5, 2, 0]"
  "dataset_getitem example_dataset 0 = Inr ([4, 3, 2], [5, 2, 0])"
  by code_simp+

text \<open>
  Claim C9: for a dataset with \<open>max_len\<close> at least 1 whose vocabulary has the end, pad and
  unknown tokens, \<open>_process_sent\<close> returns, for every token list, \<open>max_len\<close> ids: the id of
  the end token at position min (length of the input, max_len - 1), the id of the pad token
  at every later position, and before it the id of each input token, or of the unknown token
  when the vocabulary does not have the input token. For an index from 0 up to the length of
  the dataset, \<open>__getitem__\<close> returns the pair of \<open>_process_sent\<close> of line \<open>index\<close> and of
  line \<open>index + 1\<close>, both of length \<open>max_len\<close>.
\<close>

theorem process_sent_layout:
  assumes ml: "1 \<le> ds_max_len self"
    and e: "Vocab_contains (ds_vocab self) END_TOKEN"
    and p: "Vocab_contains (ds_vocab self) PAD_TOKEN"
    and u: "Vocab_contains (ds_vocab self) UNK_TOKEN"
  shows "\<exists>ids. process_sent self sent = Inr ids \<and> length ids = nat (ds_max_len self) \<and>
           Vocab_getitem (ds_vocab self) END_TOKEN
             = Inr (ids ! min (length sent) (nat (ds_max_len self - 1))) \<and>
           (\<forall>j. min (length sent) (nat (ds_max_len self - 1)) < j \<and> j < nat (ds_max_len self)
                \<longrightarrow> Vocab_getitem (ds_vocab self) PAD_TOKEN = Inr (ids ! j)) \<and>
           (\<forall>j < min (length sent) (nat (ds_max_len self - 1)).
                Vocab_getitem (ds_vocab self)
                  (if Vocab_contains (ds_vocab self) (sent ! j) then sent ! j else UNK_TOKEN)
                  = Inr (ids ! j)) \<and>
           (0 \<le> index \<and> index < dataset_len self \<and> ds_max_lines self \<le> int (length (ds_lines self))
              \<longrightarrow> (\<exists>query response.
                     dataset_getitem self index = Inr (query, response) \<and>
                     process_sent self (ds_lines self ! nat index) = Inr query \<and>
                     process_sent self (ds_lines self ! nat (index + 1)) = Inr response \<and>
                     length query = nat (ds_max_len self) \<and>
                     length response = nat (ds_max_len self)))"
proof -
  let ?v = "ds_vocab self"
  let ?n = "nat (ds_max_len self)"
  let ?k = "min (length sent) (nat (ds_max_len self - 1))"
  let ?ids = "map (id_of ?v) (pad_sentnece self sent)"
  have ps: "process_sent self s = Inr (map (id_of ?v) (pad_sentnece self s))" for s
    using process_sent_eq[OF u] .
  have len: "length (map (id_of ?v) (pad_sentnece self s)) = ?n" for s
    using length_pad_sentnece[OF ml] by simp
  have pad: "pad_sentnece self sent = take (nat (ds_max_len self - 1)) sent @ END_TOKEN #
           replicate (?n - Suc ?k) PAD_TOKEN"
    using pad_sentnece_eq[OF ml] .
  have lk: "length (take (nat (ds_max_len self - 1)) sent) = ?k" by simp
  have getid: "Vocab_getitem ?v t = Inr (id_of ?v t)" if "Vocab_contains ?v t" for t
    using that by (auto simp: Vocab_getitem_def Vocab_contains_def id_of_def split: option.splits)
  have kn: "?k < ?n" using ml by auto
  have at_k: "pad_sentnece self sent ! ?k = END_TOKEN"
    unfolding pad using lk by (metis nth_append_length)
  have c1: "Vocab_getitem ?v END_TOKEN = Inr (?ids ! ?k)"
    using getid[OF e] at_k kn length_pad_sentnece[OF ml, of sent] by simp
  have c2: "Vocab_getitem ?v PAD_TOKEN = Inr (?ids ! j)" if "?k < j \<and> j < ?n" for j
  proof -
    define pre where "pre = take (nat (ds_max_len self - 1)) sent"
    define k where "k = min (length sent) (nat (ds_max_len self - 1))"
    have lp: "length pre = k" unfolding pre_def k_def by simp
    have jk: "k < j" "j < ?n" using that unfolding k_def by auto
    have "(pre @ END_TOKEN # replicate (?n - Suc k) PAD_TOKEN) ! j
            = replicate (?n - Suc k) PAD_TOKEN ! (j - Suc k)"
      using lp jk by (simp add: nth_append nth_Cons')
    also have "\<dots> = PAD_TOKEN" using jk by simp
    finally have "pad_sentnece self sent ! j = PAD_TOKEN"
      unfolding pad pre_def k_def .
    then show ?thesis using getid[OF p] that length_pad_sentnece[OF ml, of sent] by simp
  qed
  have c3: "Vocab_getitem ?v (if Vocab_contains ?v (sent ! j) then sent ! j else UNK_TOKEN)
              = Inr (?ids ! j)" if "j < ?k" for j
  proof -
    have "pad_sentnece self sent ! j = sent ! j"
      unfolding pad using that by (simp add: nth_append)
    moreover have "j < length (pad_sentnece self sent)"
      using that kn length_pad_sentnece[OF ml, of sent] by linarith
    ultimately have "?ids ! j = id_of ?v (sent ! j)" by simp
    then show ?thesis using getid[OF u] getid[of "sent ! j"]
      by (auto simp: Vocab_getitem_def Vocab_contains_def id_of_def split: option.splits)
  qed
  have c4: "\<exists>query response.
                     dataset_getitem self index = Inr (query, response) \<and>
                     process_sent self (ds_lines self ! nat index) = Inr query \<and>
                     process_sent self (ds_lines self ! nat (index + 1)) = Inr response \<and>
                     length query = ?n \<and> length response = ?n"
    if h: "0 \<le> index \<and> index < dataset_len self \<and> ds_max_lines self \<le> int (length (ds_lines self))"
  proof -
    have "py_nth (ds_lines self) index = Inr (ds_lines self ! nat index)"
      using h by (simp add: py_nth_def dataset_len_def)
    moreover have "py_nth (ds_lines self) (index + 1) = Inr (ds_lines self ! nat (index + 1))"
      using h by (simp add: py_nth_def dataset_len_def)
    ultimately have "dataset_getitem self index =
        Inr (map (id_of ?v) (pad_sentnece self (ds_lines self ! nat index)),
             map (id_of ?v) (pad_sentnece self (ds_lines self ! nat (index + 1))))"
      by (simp add: dataset_getitem_def and_then_def ps)
    then show ?thesis using ps len by simp
  qed
  show ?thesis
    apply (rule exI[of _ ?ids])
    using ps[of sent] len[of sent] c1 c2 c3 c4 by blast
qed


theorem process_sent_layout_witness:
  "1 \<le> ds_max_len example_dataset \<and>
   Vocab_contains (ds_vocab example_dataset) END_TOKEN \<and>
   Vocab_contains (ds_vocab example_dataset) PAD_TOKEN \<and>
   Vocab_contains (ds_vocab example_dataset) UNK_TOKEN \<and>
   0 < dataset_len example_dataset \<and>
   ds_max_lines example_dataset \<le> int (length (ds_lines example_dataset)) \<and>
   (\<exists>ids. process_sent example_dataset [''hello'', ''there'', ''you''] = Inr ids \<and>
          length ids = nat (ds_max_len example_dataset)) \<and>
   (\<exists>query response. dataset_getitem example_dataset 0 = Inr (query, response) \<and>
          length query = nat (ds_max_len example_dataset) \<and>
          length response = nat (ds_max_len example_dataset))"
proof -
  have h1: "1 \<le> ds_max_len example_dataset" by code_simp
  have h2: "Vocab_contains (ds_vocab example_dataset) END_TOKEN" by code_simp
  have h3: "Vocab_contains (ds_vocab example_dataset) PAD_TOKEN" by code_simp
  have h4: "Vocab_contains (ds_vocab example_dataset) UNK_TOKEN" by code_simp
  have h5: "0 < dataset_len example_dataset" by code_simp
  have h6: "ds_max_lines example_dataset \<le> int (length (ds_lines example_dataset))" by code_simp
  show ?thesis
    using process_sent_layout [OF h1 h2 h3 h4, of "[''hello'', ''there'', ''you'']" 0] h1 h2 h3 h4 h5 h6
    by blast
qed

section \<open>Properties of the vocabulary\<close>

lemma update_new_key:
  "k \<notin> fst ` set al \<Longrightarrow> AList.update k v al = al @ [(k, v)]"
  by (induction al) auto


lemma fold_rebuild:
  assumes "distinct (map snd al)"
    and "snd ` set al \<inter> fst ` set acc = {}"
  shows "fold (\<lambda>(t, i) d. AList.update i t d) al acc = acc @ map (\<lambda>(t, i). (i, t)) al"
  using assms
proof (induction al arbitrary: acc)
  case Nil
  then show ?case by simp
next
  case (Cons p al)
  obtain t i where p: "p = (t, i)" by (cases p) auto
  have ia: "i \<notin> fst ` set acc" using Cons.prems(2) p by auto
  have d: "distinct (map snd al)" using Cons.prems(1) by simp
  have inn: "i \<notin> snd ` set al" using Cons.prems(1) p by (auto simp: image_iff)
  have i1: "snd ` set al \<inter> fst ` set (acc @ [(i, t)]) = {}"
    using Cons.prems(2) inn by auto
  show ?case using Cons.IH[OF d i1] ia by (simp add: p update_new_key)
qed



lemma ids_distinct:
  assumes "Vocab_inv v"
  shows "distinct (map snd (token2id v))"
proof -
  have "card (set (map snd (token2id v))) = length (map snd (token2id v))"
    using assms unfolding Vocab_inv_def by (simp add: card_image)
  then show ?thesis by (rule card_distinct)
qed













lemma add_token_fields:
  "special_tokens (add_token t v) = special_tokens v"
  "token_counts (add_token t v) = AList.update t (counter_get (token_counts v) t + 1) (token_counts v)"
  "token2id (add_token t v) =
     (if t \<in> fst ` set (token2id v) then token2id v else token2id v @ [(t, int (length (token2id v)))])"
  by (auto simp: add_token_def Let_def map_of_eq_None_iff update_new_key)

lemma add_token_core:
  assumes "Vocab_core v"
  shows "Vocab_core (add_token t v)"
proof (cases "t \<in> fst ` set (token2id v)")
  case True
  then show ?thesis using assms
    unfolding Vocab_core_def add_token_fields by (auto simp: dom_update)
next
  case False
  have "int ` {0..<Suc (length (token2id v))} = insert (int (length (token2id v))) (int ` {0..<length (token2id v)})"
    by (simp add: atLeast0_lessThan_Suc)
  then show ?thesis using assms False
    unfolding Vocab_core_def add_token_fields by (simp add: dom_update)
qed

lemma add_token_id_of:
  assumes "s \<in> fst ` set (token2id v)"
  shows "id_of (add_token t v) s = id_of v s"
proof -
  obtain i where "map_of (token2id v) s = Some i"
    using assms by (metis map_of_eq_None_iff not_Some_eq)
  then show ?thesis by (simp add: id_of_def add_token_fields map_add_def)
qed

lemma add_token_keys: "fst ` set (token2id v) \<subseteq> fst ` set (token2id (add_token t v))"
  by (auto simp: add_token_fields)

lemma add_token_specials:
  assumes "specials_in_id_order v"
  shows "specials_in_id_order (add_token t v)"
proof -
  obtain special where sp: "special_tokens v = Some special"
    and sub: "set special \<subseteq> fst ` set (token2id v)"
    and srt: "sorted_wrt (\<lambda>s t. id_of v s < id_of v t) special"
    using assms unfolding specials_in_id_order_def by (auto split: option.splits)
  have "sorted_wrt (\<lambda>s u. id_of (add_token t v) s < id_of (add_token t v) u) special"
    using srt
  proof (rule sorted_wrt_mono_rel[rotated])
    fix s u assume "s \<in> set special" "u \<in> set special" "id_of v s < id_of v u"
    then show "id_of (add_token t v) s < id_of (add_token t v) u"
      using sub add_token_id_of by (metis subsetD)
  qed
  then show ?thesis
    unfolding specials_in_id_order_def using sp sub add_token_keys[of v t]
    by (auto simp: add_token_fields(1))
qed

lemma fold_add_token_core:
  "Vocab_core v \<Longrightarrow> Vocab_core (fold add_token document v)"
  by (induction document arbitrary: v) (simp_all add: add_token_core)

lemma fold_add_token_specials:
  "specials_in_id_order v \<Longrightarrow> specials_in_id_order (fold add_token document v)"
  by (induction document arbitrary: v) (simp_all add: add_token_specials)

lemma rebuild_fields:
  "special_tokens (rebuild_id2token v) = special_tokens v"
  "token2id (rebuild_id2token v) = token2id v"
  "token_counts (rebuild_id2token v) = token_counts v"
  by (simp_all add: rebuild_id2token_def)

lemma rebuild_inv:
  assumes "Vocab_core v"
  shows "Vocab_inv (rebuild_id2token v)"
proof -
  have dk: "distinct (map fst (token2id v))" using assms unfolding Vocab_core_def by simp
  have "card (set (map snd (token2id v))) = length (map snd (token2id v))"
    using assms unfolding Vocab_core_def by (simp add: card_image)
  then have di: "distinct (map snd (token2id v))" by (rule card_distinct)
  then have "fold (\<lambda>(t, i) d. AList.update i t d) (token2id v) [] = [] @ map (\<lambda>(t, i). (i, t)) (token2id v)"
    by (rule fold_rebuild) simp
  then have r: "id2token (rebuild_id2token v) = map (\<lambda>(t, i). (i, t)) (token2id v)"
    by (simp add: rebuild_id2token_def)
  have "map fst (map (\<lambda>(t, i). (i, t)) (token2id v)) = map snd (token2id v)"
    by (simp add: comp_def case_prod_unfold)
  then have d2: "distinct (map fst (map (\<lambda>(t, i). (i, t)) (token2id v)))" using di by metis
  have "(map_of (id2token (rebuild_id2token v)) i = Some t) = (map_of (token2id v) t = Some i)" for i t
  proof -
    have "(map_of (id2token (rebuild_id2token v)) i = Some t) = ((i, t) \<in> set (map (\<lambda>(t, i). (i, t)) (token2id v)))"
      unfolding r using d2 by (metis map_of_eq_Some_iff)
    also have "\<dots> = ((t, i) \<in> set (token2id v))" by auto
    also have "\<dots> = (map_of (token2id v) t = Some i)" using dk by simp
    finally show ?thesis .
  qed
  then show ?thesis using assms unfolding Vocab_inv_def Vocab_core_def rebuild_fields by simp
qed

lemma inv_core: "Vocab_inv v \<Longrightarrow> Vocab_core v"
  unfolding Vocab_inv_def Vocab_core_def by simp

lemma rebuild_specials: "specials_in_id_order v \<Longrightarrow> specials_in_id_order (rebuild_id2token v)"
  unfolding specials_in_id_order_def rebuild_fields id_of_def by simp


lemma add_document_specials:
  assumes "specials_in_id_order v"
  shows "specials_in_id_order (add_document v document rebuild)"
  unfolding add_document_def Let_def
  using rebuild_specials fold_add_token_specials[OF assms] by simp


lemma fold_add_token_special_tokens:
  "special_tokens (fold add_token document v) = special_tokens v"
  by (induction document arbitrary: v) (simp_all add: add_token_fields)

lemma fold_add_token_fresh:
  assumes "distinct document" "set document \<inter> fst ` set (token2id v) = {}"
  shows "token2id (fold add_token document v) =
           token2id v @ zip document (map int [length (token2id v)..<length (token2id v) + length document])"
  using assms
proof (induction document arbitrary: v)
  case Nil
  then show ?case by simp
next
  case (Cons t document)
  let ?n = "length (token2id v)"
  have tn: "t \<notin> fst ` set (token2id v)" using Cons.prems(2) by auto
  then have t2i: "token2id (add_token t v) = token2id v @ [(t, int ?n)]"
    by (simp add: add_token_fields)
  have d: "distinct document" and tnd: "t \<notin> set document" using Cons.prems(1) by auto
  have disj: "set document \<inter> fst ` set (token2id (add_token t v)) = {}"
    unfolding t2i using Cons.prems(2) tnd by auto
  have upt: "[?n..<?n + length (t # document)] = ?n # [Suc ?n..<Suc ?n + length document]"
    using upt_conv_Cons[of ?n "?n + Suc (length document)"] by simp
  show ?case
    using Cons.IH[OF d disj] unfolding t2i upt by simp
qed


lemma Vocab_init_specials:
  assumes "distinct special"
  shows "specials_in_id_order (Vocab_init (Some special))"
proof -
  let ?empty = "\<lparr>special_tokens = Some special, token2id = [], id2token = [], token_counts = []\<rparr>"
  let ?v = "fold add_token special ?empty"
  let ?ids = "map int [0..<length special]"
  have t2i: "token2id ?v = zip special ?ids"
    using fold_add_token_fresh[OF assms, where v = ?empty] by simp
  have sp: "special_tokens ?v = Some special"
    by (simp add: fold_add_token_special_tokens)
  have keys: "set special \<subseteq> fst ` set (token2id ?v)"
    unfolding t2i by (metis length_map length_upt map_fst_zip minus_nat.diff_0 set_map subset_refl)
  have idof: "id_of ?v (special ! i) = int i" if "i < length special" for i
  proof -
    have "map_of (zip special ?ids) (special ! i) = Some (?ids ! i)"
      using that assms by (intro map_of_zip_nth) simp_all
    then show ?thesis using that unfolding id_of_def t2i by simp
  qed
  have "sorted_wrt (\<lambda>s t. id_of ?v s < id_of ?v t) special"
    unfolding sorted_wrt_iff_nth_less using idof by simp
  then have "specials_in_id_order ?v"
    unfolding specials_in_id_order_def using sp keys by simp
  then show ?thesis
    unfolding Vocab_init_def add_document_def Let_def
    using rebuild_specials by simp
qed

lemma save_load_example:
  "save example_vocab =
     Inr [(''<pad>'', 1, 1), (''<start>'', 1, 1), (''<end>'', 1, 1), (''<unk>'', 1, 1),
          (''hello'', 2, 0), (''you'', 1, 0)]"
  "load [(''<pad>'', 1, 1), (''<start>'', 1, 1), (''<end>'', 1, 1), (''<unk>'', 1, 1),
          (''hello'', 2, 0), (''you'', 1, 0)] = example_vocab"
  by code_simp+

lemma fold_add_document_core:
  "Vocab_core v \<Longrightarrow> Vocab_core (fold (\<lambda>doc v. add_document v doc False) documents v)"
  by (induction documents arbitrary: v) (simp_all add: add_document_def fold_add_token_core)

lemma fold_add_document_specials:
  "specials_in_id_order v \<Longrightarrow>
     specials_in_id_order (fold (\<lambda>doc v. add_document v doc False) documents v)"
  by (induction documents arbitrary: v) (simp_all add: add_document_specials)

lemma add_documents_inv:
  assumes "Vocab_inv v"
  shows "Vocab_inv (add_documents v documents)"
  unfolding add_documents_def
  using rebuild_inv[OF fold_add_document_core[OF inv_core[OF assms]]] .

lemma add_documents_specials:
  assumes "specials_in_id_order v"
  shows "specials_in_id_order (add_documents v documents)"
  unfolding add_documents_def
  using rebuild_specials[OF fold_add_document_specials[OF assms]] .

lemma specials_contained:
  assumes "specials_in_id_order v" "special_tokens v = Some special" "t \<in> set special"
  shows "Vocab_contains v t"
proof -
  have "t \<in> fst ` set (token2id v)"
    using assms unfolding specials_in_id_order_def by auto
  then show ?thesis unfolding Vocab_contains_def by (simp add: map_of_eq_None_iff)
qed

lemma add_documents_special_tokens:
  "special_tokens (add_documents v documents) = special_tokens v"
proof -
  have "special_tokens (fold (\<lambda>doc v. add_document v doc False) documents v) = special_tokens v"
    by (induction documents arbitrary: v)
       (simp_all add: add_document_def fold_add_token_special_tokens)
  then show ?thesis by (simp add: add_documents_def rebuild_fields)
qed

lemma Vocab_init_special_tokens:
  "special_tokens (Vocab_init (Some special)) = Some special"
  by (simp add: Vocab_init_def add_document_def rebuild_fields fold_add_token_special_tokens)

lemma dataset_vocabulary_has_specials:
  assumes "distinct special" "t \<in> set special"
  shows "Vocab_contains (add_documents (Vocab_init (Some special)) documents) t"
  using specials_contained[OF add_documents_specials[OF Vocab_init_specials[OF assms(1)]]]
    add_documents_special_tokens Vocab_init_special_tokens assms(2) by simp





section \<open>Properties of the decoders\<close>

lemma and_then_Inr:
  "and_then r f = Inr y \<Longrightarrow> \<exists>x. r = Inr x \<and> f x = Inr y"
  by (cases r) (simp_all add: and_then_def)








lemma attention_step_Inr:
  assumes "Seq2SeqAttentionModel_step self encoder_hiddens inputs_mask targets draw i
             decoder_hidden decoder_inputs = Inr it"
  shows "length encoder_hiddens = length decoder_hidden"
    and "softmax_masked
           (map (map (attention_reduce self))
              (map2 (\<lambda>row d. map (\<lambda>e. map tanh (map2 (+) e d)) row)
                 (map (map (attention_encoder self)) encoder_hiddens)
                 (map (attention_decoder self) decoder_hidden)))
           inputs_mask default_epsilon = Inr (att_normazlied it)"
    and "decoder_hidden_att it =
           map2 (\<lambda>row ws. vsum (map2 (\<lambda>h w. map (\<lambda>x. x * w) h) row ws))
                encoder_hiddens (att_normazlied it)"
    and "decoder_hidden_combined it =
           map2 (\<lambda>h c. decoder_hidden_combine self (h @ c)) decoder_hidden (decoder_hidden_att it)"
    and "length decoder_inputs = length (decoder_hidden_combined it)"
    and "decoder_hidden_new it =
           map2 (decoder self) (map (embedding self) decoder_inputs) (decoder_hidden_combined it)"
    and "decoder_output_logit it = map (decoder_projection self) (decoder_hidden_new it)"
    and "next_inputs self draw targets i (decoder_output_logit it) = Inr (decoder_inputs_new it)"
  using assms unfolding Seq2SeqAttentionModel_step_def Let_def
  by (auto split: if_splits dest!: and_then_Inr)







lemma encode_mask:
  "snd (Seq2SeqAttentionModel_encode self inputs)
     = map (map (\<lambda>t. if t \<noteq> pad_index self then 1 else 0)) inputs"
  by (simp add: Seq2SeqAttentionModel_encode_def Let_def)

lemma encode_outputs:
  "fst (Seq2SeqAttentionModel_encode self inputs)
     = map (\<lambda>row. encoder self (map (embedding self) row)) inputs"
  by (simp add: Seq2SeqAttentionModel_encode_def Let_def)


lemma encode_mask_shape:
  "map length (snd (Seq2SeqAttentionModel_encode self inputs)) = map length inputs"
  unfolding encode_mask by (simp add: comp_def)

lemma encode_outputs_shape:
  assumes "\<forall>xs. length (encoder self xs) = length xs"
  shows "map length (fst (Seq2SeqAttentionModel_encode self inputs)) = map length inputs"
  unfolding encode_outputs using assms by (simp add: comp_def)






lemma vsum_sum:
  assumes "vs \<noteq> []" "\<forall>v \<in> set vs. length v = n"
  shows "length (vsum vs) = n \<and> (\<forall>k < n. vsum vs ! k = (\<Sum>j < length vs. vs ! j ! k))"
  using assms
proof (induction vs rule: vsum.induct)
  case 1
  then show ?case by simp
next
  case (2 v)
  then show ?case by simp
next
  case (3 v u us)
  have ih: "length (vsum (u # us)) = n \<and>
            (\<forall>k < n. vsum (u # us) ! k = (\<Sum>j < length (u # us). (u # us) ! j ! k))"
    using 3 by simp
  have lv: "length v = n" using 3(3) by simp
  have "vsum (v # u # us) ! k = (\<Sum>j < length (v # u # us). (v # u # us) ! j ! k)" if k: "k < n" for k
  proof -
    have "vsum (v # u # us) ! k = v ! k + vsum (u # us) ! k"
      using k lv ih by simp
    also have "\<dots> = v ! k + (\<Sum>j < length (u # us). (u # us) ! j ! k)"
      using ih k by simp
    also have "\<dots> = (\<Sum>j < Suc (length (u # us)). (v # u # us) ! j ! k)"
      by (subst sum.lessThan_Suc_shift) simp
    finally show ?thesis by simp
  qed
  moreover have "length (vsum (v # u # us)) = n" using lv ih by simp
  ultimately show ?case by blast
qed














section \<open>The example model, evaluated\<close>


lemma example_softmax:
  "softmax_masked [[0, 0]] [[1, 0]] default_epsilon = Inr [[1000000 / 1000001, 0]]"
  by (simp add: softmax_masked_def default_epsilon_def)


lemma example_step_inference:
  "Seq2SeqAttentionModel_step example_model [[[3], [0]]] [[1, 0]] None 0 0 [[0]] [1]
     = Inr (example_iteration [1])"
  by (simp add: Seq2SeqAttentionModel_step_def example_model_def example_softmax and_then_def
      next_inputs_def use_targets_def argmax_def example_iteration_def Let_def)


lemma example_layers:
  "\<forall>xs. length (encoder example_model xs) = length xs"
  "\<forall>xs. [] \<notin> set (encoder example_model xs)"
  "\<forall>h. length (decoder_projection example_model h) = 3"
  by (auto simp: example_model_def)


section \<open>The claims about the models\<close>









text \<open>
  Claim C6: for an encoder layer that returns one output for each position, \<open>encode\<close>
  returns, for each row of the batch, the outputs of the encoder layer on the embedded row,
  one for each position, together with a mask of the shape of the input that is 0 where the
  input token is \<open>pad_index\<close> and 1 elsewhere.
\<close>

theorem encode_mask_and_outputs:
  assumes enc_len: "\<forall>xs. length (encoder self xs) = length xs"
  shows "\<exists>outputs inputs_mask.
           Seq2SeqAttentionModel_encode self inputs = (outputs, inputs_mask) \<and>
           map length outputs = map length inputs \<and>
           map length inputs_mask = map length inputs \<and>
           (\<forall>b < length inputs. \<forall>j < length (inputs ! b).
               inputs_mask ! b ! j = (if inputs ! b ! j = pad_index self then 0 else 1)) \<and>
           (\<forall>b < length inputs. outputs ! b = encoder self (map (embedding self) (inputs ! b)))"
proof -
  let ?outputs = "fst (Seq2SeqAttentionModel_encode self inputs)"
  let ?msk = "snd (Seq2SeqAttentionModel_encode self inputs)"
  have "Seq2SeqAttentionModel_encode self inputs = (?outputs, ?msk)" by simp
  moreover have "map length ?outputs = map length inputs" using encode_outputs_shape[OF enc_len] .
  moreover have "map length ?msk = map length inputs" by (rule encode_mask_shape)
  moreover have "\<forall>b < length inputs. \<forall>j < length (inputs ! b).
               ?msk ! b ! j = (if inputs ! b ! j = pad_index self then 0 else 1)"
    unfolding encode_mask by simp
  moreover have "\<forall>b < length inputs. ?outputs ! b = encoder self (map (embedding self) (inputs ! b))"
    unfolding encode_outputs by simp
  ultimately show ?thesis by blast
qed

theorem encode_mask_and_outputs_witness:
  "(\<forall>xs. length (encoder example_model xs) = length xs) \<and>
   (\<exists>outputs inputs_mask.
       Seq2SeqAttentionModel_encode example_model [[3, 0]] = (outputs, inputs_mask) \<and>
       map length outputs = map length [[3::int, 0]] \<and>
       map length inputs_mask = map length [[3::int, 0]] \<and>
       (\<forall>b < length [[3::int, 0]]. \<forall>j < length ([[3::int, 0]] ! b).
           inputs_mask ! b ! j = (if [[3, 0]] ! b ! j = pad_index example_model then 0 else 1)) \<and>
       (\<forall>b < length [[3::int, 0]].
           outputs ! b = encoder example_model (map (embedding example_model) ([[3, 0]] ! b))))"
  using encode_mask_and_outputs [OF example_layers(1), of "[[3, 0]]"] example_layers(1) by blast

text \<open>
  Claim C7: in an iteration of \<open>decode\<close> over sequences of at least one position with
  hidden vectors of a common size, the context vector \<open>decoder_hidden_att\<close> of a row is, entry
  by entry, the sum over the positions of the attention weight times the encoder hidden
  state; \<open>decoder_hidden_combined\<close> is \<open>decoder_hidden_combine\<close> applied to the previous
  decoder state followed by the context vector, and it is the state passed to the decoder
  cell with the embedded decoder input.
\<close>

theorem attention_context_vector:
  assumes step: "Seq2SeqAttentionModel_step self encoder_hiddens inputs_mask targets draw i
                   decoder_hidden decoder_inputs = Inr it"
    and hid: "\<forall>row \<in> set encoder_hiddens. \<forall>h \<in> set row. length h = hidden_size"
    and ne: "[] \<notin> set encoder_hiddens"
  shows "\<forall>b < length encoder_hiddens.
           length (decoder_hidden_att it ! b) = hidden_size \<and>
           (\<forall>k < hidden_size.
               decoder_hidden_att it ! b ! k =
                 (\<Sum>j < length (encoder_hiddens ! b).
                     att_normazlied it ! b ! j * encoder_hiddens ! b ! j ! k)) \<and>
           decoder_hidden_combined it ! b =
             decoder_hidden_combine self (decoder_hidden ! b @ decoder_hidden_att it ! b) \<and>
           decoder_hidden_new it ! b =
             decoder self (embedding self (decoder_inputs ! b)) (decoder_hidden_combined it ! b)"
proof (intro allI impI)
  fix b assume b: "b < length encoder_hiddens"
  note s = attention_step_Inr[OF step]
  let ?att = "att_normazlied it"
  let ?row = "encoder_hiddens ! b"
  have sh: "map length ?att = map length encoder_hiddens"
    using softmax_masked_shape[OF s(2)] s(1) by (simp add: list_eq_iff_nth_eq)
  then have la: "length ?att = length encoder_hiddens" by (metis length_map)
  have lab: "length (?att ! b) = length ?row" using sh b la by (metis nth_map)
  let ?w = "map2 (\<lambda>h w. map (\<lambda>x. x * w) h) ?row (?att ! b)"
  have ctx: "decoder_hidden_att it ! b = vsum ?w"
    unfolding s(3) using b la by simp
  have rowne: "?row \<noteq> []" using ne b by (metis nth_mem)
  have wne: "?w \<noteq> []" using rowne lab by (cases ?row; cases "?att ! b") simp_all
  have rowin: "?row \<in> set encoder_hiddens" using b by simp
  have wl: "\<forall>v \<in> set ?w. length v = hidden_size"
    using hid rowin by (auto simp: in_set_zip)
  have lw: "length ?w = length ?row" using lab by simp
  have vs: "length (vsum ?w) = hidden_size \<and> (\<forall>k < hidden_size. vsum ?w ! k = (\<Sum>j < length ?w. ?w ! j ! k))"
    using vsum_sum[OF wne wl] .
  have entry: "?w ! j ! k = ?att ! b ! j * ?row ! j ! k" if "j < length ?row" "k < hidden_size" for j k
  proof -
    have "?row ! j \<in> set ?row" using that by simp
    then have "length (?row ! j) = hidden_size" using hid rowin by blast
    then show ?thesis using that lab by simp
  qed
  have c1: "length (decoder_hidden_att it ! b) = hidden_size" using ctx vs by simp
  have c2: "\<forall>k < hidden_size. decoder_hidden_att it ! b ! k =
                 (\<Sum>j < length ?row. ?att ! b ! j * ?row ! j ! k)"
    using ctx vs lw entry by simp
  have lctx: "length (decoder_hidden_att it) = length encoder_hiddens"
    unfolding s(3) using la by simp
  have c3: "decoder_hidden_combined it ! b =
             decoder_hidden_combine self (decoder_hidden ! b @ decoder_hidden_att it ! b)"
    using s(4) s(1) lctx b by simp
  have lcomb: "length (decoder_hidden_combined it) = length encoder_hiddens"
    using s(4) s(1) lctx by simp
  have c4: "decoder_hidden_new it ! b =
             decoder self (embedding self (decoder_inputs ! b)) (decoder_hidden_combined it ! b)"
    using s(6) s(5) lcomb b by simp
  show "length (decoder_hidden_att it ! b) = hidden_size \<and>
           (\<forall>k < hidden_size.
               decoder_hidden_att it ! b ! k =
                 (\<Sum>j < length (encoder_hiddens ! b).
                     att_normazlied it ! b ! j * encoder_hiddens ! b ! j ! k)) \<and>
           decoder_hidden_combined it ! b =
             decoder_hidden_combine self (decoder_hidden ! b @ decoder_hidden_att it ! b) \<and>
           decoder_hidden_new it ! b =
             decoder self (embedding self (decoder_inputs ! b)) (decoder_hidden_combined it ! b)"
    using c1 c2 c3 c4 by blast
qed

theorem attention_context_vector_witness:
  "Seq2SeqAttentionModel_step example_model [[[3], [0]]] [[1, 0]] None 0 0 [[0]] [1]
     = Inr (example_iteration [1]) \<and>
   length [3::real] = 1 \<and> length [0::real] = 1 \<and>
   [] \<notin> set [[[3::real], [0]]] \<and>
   length (decoder_hidden_att (example_iteration [1]) ! 0) = 1 \<and>
   decoder_hidden_att (example_iteration [1]) ! 0 ! 0 =
     (\<Sum>j < length ([[[3::real], [0]]] ! 0).
         att_normazlied (example_iteration [1]) ! 0 ! j * [[[3], [0]]] ! 0 ! j ! 0) \<and>
   decoder_hidden_combined (example_iteration [1]) ! 0 =
     decoder_hidden_combine example_model ([[0]] ! 0 @ decoder_hidden_att (example_iteration [1]) ! 0) \<and>
   decoder_hidden_new (example_iteration [1]) ! 0 =
     decoder example_model (embedding example_model ([1] ! 0))
       (decoder_hidden_combined (example_iteration [1]) ! 0)"
proof -
  have h2: "\<forall>row \<in> set [[[3::real], [0]]]. \<forall>h \<in> set row. length h = 1" by simp
  have h3: "[] \<notin> set [[[3::real], [0]]]" by simp
  have b: "(0::nat) < length [[[3::real], [0]]]" and k: "(0::nat) < 1" by simp_all
  note t = attention_context_vector [OF example_step_inference h2 h3, rule_format, OF b]
  have c1: "length (decoder_hidden_att (example_iteration [1]) ! 0) = 1"
    using t by blast
  have c2: "decoder_hidden_att (example_iteration [1]) ! 0 ! 0 =
     (\<Sum>j < length ([[[3::real], [0]]] ! 0).
         att_normazlied (example_iteration [1]) ! 0 ! j * [[[3], [0]]] ! 0 ! j ! 0)"
    using t k by blast
  have c3: "decoder_hidden_combined (example_iteration [1]) ! 0 =
     decoder_hidden_combine example_model ([[0]] ! 0 @ decoder_hidden_att (example_iteration [1]) ! 0)"
    using t by blast
  have c4: "decoder_hidden_new (example_iteration [1]) ! 0 =
     decoder example_model (embedding example_model ([1] ! 0))
       (decoder_hidden_combined (example_iteration [1]) ! 0)"
    using t by blast
  show ?thesis
    using example_step_inference h3 c1 c2 c3 c4 by simp
qed

end
